theory Spec2Isabelle
  imports Main "HOL-Library.Word" "HOL-Library.Multiset"
begin

unbundle bit_operations_syntax

section \<open>The ZVI reader: data model\<close>

text \<open>
  The development follows \<^verbatim>\<open>src/zvi_reader.py\<close> (class \<^verbatim>\<open>ZVI\<close>).
  Python integers are unbounded: item numbers and lengths are \<open>nat\<close> (they are parsed from
  digit runs), requested indices are \<open>int\<close>. Names of storages and streams are strings of
  8-bit characters; a stream's content is a list of bytes. The frame shape handed to the
  constructor is a pair of non-negative sizes \<open>(width, height)\<close>.
\<close>

type_synonym byte = "8 word"
type_synonym path = "string list"

text \<open>
  The compound file as the reader sees it through \<^verbatim>\<open>OleFileIO\<close>: the paths of its streams
  in the order \<^verbatim>\<open>listdir()\<close> returns them, and for each path what
  \<^verbatim>\<open>openstream(path).read()\<close> returns, \<open>None\<close> when \<^verbatim>\<open>openstream\<close> finds no such stream
  and raises. How the container resolves a path is left to it.
\<close>

record ole =
  ole_streams :: "path list"
  ole_read :: "path \<rightharpoonup> byte list"

text \<open>
  The exceptions that can leave the reader, under the names of the error taxonomy:
  \<open>ContainerOpenError\<close> is the \<^verbatim>\<open>IOError\<close> of \<^verbatim>\<open>OleFileIO(filename)\<close>,
  \<open>IndexError\<close> the \<^verbatim>\<open>IndexError\<close> of a subscript out of range,
  \<open>EmptyIndexError\<close> the \<^verbatim>\<open>ValueError\<close> of \<^verbatim>\<open>max([])\<close>,
  \<open>ConfigurationError\<close> the \<^verbatim>\<open>ValueError\<close> of the option check,
  \<open>MissingFrameError\<close> the \<^verbatim>\<open>IOError\<close> of \<^verbatim>\<open>openstream\<close> on an absent stream,
  \<open>DecodeError\<close> the \<^verbatim>\<open>ValueError\<close> of \<^verbatim>\<open>Image.fromstring\<close> on too few bytes.
\<close>

datatype error =
    ContainerOpenError
  | IndexError
  | EmptyIndexError
  | ConfigurationError
  | MissingFrameError
  | DecodeError

text \<open>
  Input and output is made explicit: the world holds the files that can be opened and the
  log of the reads performed so far, in order.
\<close>

datatype io_event = OpenFile string | OpenStream path

record world =
  files :: "string \<rightharpoonup> ole"
  io_log :: "io_event list"

datatype np_dtype = UInt8 | UInt16 | UInt32

fun dtype_bits :: "np_dtype \<Rightarrow> nat" where
  "dtype_bits UInt8 = 8"
| "dtype_bits UInt16 = 16"
| "dtype_bits UInt32 = 32"

text \<open>A PIL image of mode \<^verbatim>\<open>I;16L\<close>: its size \<open>(width, height)\<close> and its samples, row by row.\<close>

record pil_image =
  img_size :: "nat \<times> nat"
  img_data :: "16 word list"

text \<open>
  A two-dimensional numpy array: its shape \<open>(rows, columns)\<close>, its element type and its
  elements in row-major order (the flattened view).
\<close>

record ndarray =
  arr_shape :: "nat \<times> nat"
  arr_dtype :: np_dtype
  arr_flat :: "nat list"

record frame =
  frame_arr :: ndarray
  frame_no :: int

record zvi =
  zvi_filename :: string
  zvi_ole :: ole
  zvi_streams :: "path list"
  zvi_dtype :: np_dtype
  zvi_im_sz :: "nat \<times> nat"
  zvi_toc :: "nat list"
  zvi_len :: nat
  zvi_process_func :: "ndarray \<Rightarrow> ndarray"

section \<open>Container access\<close>

definition OleFileIO :: "string \<Rightarrow> world \<Rightarrow> (error + ole) \<times> world" where
  "OleFileIO filename w =
     (let w' = w\<lparr>io_log := io_log w @ [OpenFile filename]\<rparr>
      in case files w filename of
           None \<Rightarrow> (Inl ContainerOpenError, w')
         | Some c \<Rightarrow> (Inr c, w'))"

definition listdir :: "ole \<Rightarrow> path list" where
  "listdir c = ole_streams c"

definition openstream_read :: "ole \<Rightarrow> path \<Rightarrow> world \<Rightarrow> (error + byte list) \<times> world" where
  "openstream_read c p w =
     (let w' = w\<lparr>io_log := io_log w @ [OpenStream p]\<rparr>
      in case ole_read c p of
           None \<Rightarrow> (Inl MissingFrameError, w')
         | Some data \<Rightarrow> (Inr data, w'))"

section \<open>Strings, the pattern and integer parsing\<close>

definition is_digit :: "char \<Rightarrow> bool" where
  "is_digit c = (c \<in> set ''0123456789'')"

definition digit_val :: "char \<Rightarrow> nat" where
  "digit_val c = of_char c - 48"

text \<open>\<^verbatim>\<open>int(s)\<close> on a run of decimal digits.\<close>

definition py_int :: "string \<Rightarrow> nat" where
  "py_int ds = foldl (\<lambda>n c. 10 * n + digit_val c) 0 ds"

text \<open>
  \<^verbatim>\<open>re.match('Item\((\d+)\)', s)\<close>: the pattern is anchored at the start of \<open>s\<close> only.
  The digit run is greedy, and since the closing parenthesis is no digit, the match
  succeeds exactly when the longest digit run after \<^verbatim>\<open>Item(\<close> is non-empty and followed
  by \<^verbatim>\<open>)\<close>. The result is group 1, the digit run.
\<close>

definition re_match_Item :: "string \<Rightarrow> string option" where
  "re_match_Item s =
     (if take 5 s = ''Item('' then
        (let r = drop 5 s; ds = takeWhile is_digit r; rest = dropWhile is_digit r
         in if ds \<noteq> [] \<and> take 1 rest = '')'' then Some ds else None)
      else None)"

definition digit_char :: "nat \<Rightarrow> char" where
  "digit_char d = ''0123456789'' ! d"

text \<open>\<^verbatim>\<open>'{0}'.format(j)\<close> for an integer \<open>j\<close>: its decimal representation.\<close>

fun str_of_nat :: "nat \<Rightarrow> string" where
  "str_of_nat n =
     (if n < 10 then [digit_char n] else str_of_nat (n div 10) @ [digit_char (n mod 10)])"

declare str_of_nat.simps [simp del]

definition str_of_int :: "int \<Rightarrow> string" where
  "str_of_int j = (if j < 0 then CHR ''-'' # str_of_nat (nat (- j)) else str_of_nat (nat j))"

section \<open>The stream index (the loop of the constructor)\<close>

text \<open>\<^verbatim>\<open>stream[i]\<close>: a subscript out of range raises.\<close>

definition subscript :: "'a list \<Rightarrow> nat \<Rightarrow> error + 'a" where
  "subscript xs i = (if i < length xs then Inr (xs ! i) else Inl IndexError)"

text \<open>One round of the loop over \<^verbatim>\<open>self._streams\<close>: the table of contents after the round.\<close>

definition toc_step :: "path \<Rightarrow> nat list \<Rightarrow> error + nat list" where
  "toc_step stream toc =
     (case subscript stream 0 of
        Inl e \<Rightarrow> Inl e
      | Inr s0 \<Rightarrow>
          if s0 \<noteq> ''Image'' then Inr toc
          else (case subscript stream 1 of
                  Inl e \<Rightarrow> Inl e
                | Inr s1 \<Rightarrow>
                    (case re_match_Item s1 of
                       None \<Rightarrow> Inr toc
                     | Some ds \<Rightarrow> Inr (toc @ [py_int ds]))))"

fun toc_loop :: "path list \<Rightarrow> nat list \<Rightarrow> error + nat list" where
  "toc_loop [] toc = Inr toc"
| "toc_loop (stream # streams) toc =
     (case toc_step stream toc of
        Inl e \<Rightarrow> Inl e
      | Inr toc' \<Rightarrow> toc_loop streams toc')"

text \<open>\<^verbatim>\<open>max(xs)\<close>: raises on the empty list.\<close>

fun py_max :: "nat list \<Rightarrow> error + nat" where
  "py_max [] = Inl EmptyIndexError"
| "py_max (x # xs) = Inr (fold max xs x)"

section \<open>The options of the base class\<close>

text \<open>
  Modelled from the spec: \<^verbatim>\<open>_validate_process_func\<close> of the base class
  \<^verbatim>\<open>FramesSequence\<close>, which is not part of the sources. The processing transform is the
  identity by default.
\<close>

definition validate_process_func :: "(ndarray \<Rightarrow> ndarray) option \<Rightarrow> ndarray \<Rightarrow> ndarray" where
  "validate_process_func process_func = (case process_func of None \<Rightarrow> (\<lambda>img. img) | Some f \<Rightarrow> f)"

text \<open>
  Modelled from the spec: \<^verbatim>\<open>_as_grey\<close> of the base class \<^verbatim>\<open>FramesSequence\<close>, which is
  not part of the sources. At most one of the processing transform and the greyscale
  flag may be configured; supplying both fails with \<open>ConfigurationError\<close>. The greyscale
  conversion does not apply to the single-channel frames decoded here, so the flag alone
  leaves the transform as it is.
\<close>

definition as_grey_option :: "bool \<Rightarrow> (ndarray \<Rightarrow> ndarray) option \<Rightarrow> error + unit" where
  "as_grey_option as_grey process_func =
     (if as_grey \<and> process_func \<noteq> None then Inl ConfigurationError else Inr ())"

section \<open>The constructor\<close>

text \<open>
  \<^verbatim>\<open>ZVI.__init__(filename, shape, process_func, dtype, as_grey)\<close>, statement by statement.
  The argument \<open>dtype\<close> may be any value of any type.
\<close>

definition ZVI_init ::
  "string \<Rightarrow> nat \<times> nat \<Rightarrow> (ndarray \<Rightarrow> ndarray) option \<Rightarrow> 'd \<Rightarrow> bool \<Rightarrow> world
     \<Rightarrow> (error + zvi) \<times> world" where
  "ZVI_init filename shape process_func dtype as_grey w =
     (case OleFileIO filename w of
        (Inl e, w') \<Rightarrow> (Inl e, w')
      | (Inr c, w') \<Rightarrow>
          (let streams = listdir c in
           case toc_loop streams [] of
             Inl e \<Rightarrow> (Inl e, w')
           | Inr toc \<Rightarrow>
               (case py_max toc of
                  Inl e \<Rightarrow> (Inl e, w')
                | Inr n \<Rightarrow>
                    (case as_grey_option as_grey process_func of
                       Inl e \<Rightarrow> (Inl e, w')
                     | Inr _ \<Rightarrow>
                         (Inr \<lparr>zvi_filename = filename, zvi_ole = c, zvi_streams = streams,
                               zvi_dtype = UInt16, zvi_im_sz = shape, zvi_toc = toc,
                               zvi_len = n,
                               zvi_process_func = validate_process_func process_func\<rparr>,
                          w')))))"

definition pixel_type :: "zvi \<Rightarrow> np_dtype" where
  "pixel_type z = zvi_dtype z"

definition frame_shape :: "zvi \<Rightarrow> nat \<times> nat" where
  "frame_shape z = zvi_im_sz z"

definition len :: "zvi \<Rightarrow> nat" where
  "len z = zvi_len z"

section \<open>The frame decoder\<close>

text \<open>Sixteen-bit samples, least significant byte first; a trailing odd byte is not a sample.\<close>

fun le16_samples :: "byte list \<Rightarrow> 16 word list" where
  "le16_samples (lo # hi # bs) = (ucast lo OR push_bit 8 (ucast hi)) # le16_samples bs"
| "le16_samples _ = []"

text \<open>
  \<^verbatim>\<open>Image.fromstring('I;16L', size, data)\<close> with the raw decoder: the image takes
  \<open>width * height\<close> samples of two bytes from the front of the data, row by row; fewer
  bytes than that raise, bytes beyond that are ignored. The theorems below rely on this
  for images of positive width and height only.
\<close>

definition Image_fromstring :: "nat \<times> nat \<Rightarrow> byte list \<Rightarrow> error + pil_image" where
  "Image_fromstring sz data =
     (case sz of (width, height) \<Rightarrow>
        if length data < width * height * 2 then Inl DecodeError
        else Inr \<lparr>img_size = sz, img_data = le16_samples (take (width * height * 2) data)\<rparr>)"

text \<open>
  \<^verbatim>\<open>np.asarray(img, dtype=dt)\<close>: an image of size \<open>(width, height)\<close> is an array of
  \<open>height\<close> rows and \<open>width\<close> columns; each sample is cast to the element type.
\<close>

definition np_asarray :: "pil_image \<Rightarrow> np_dtype \<Rightarrow> ndarray" where
  "np_asarray img dt =
     (case img_size img of (width, height) \<Rightarrow>
        \<lparr>arr_shape = (height, width), arr_dtype = dt,
         arr_flat = map (\<lambda>p. unat p mod 2 ^ dtype_bits dt) (img_data img)\<rparr>)"

text \<open>
  \<^verbatim>\<open>np.roll(a, shift)\<close> without an axis works on the flattened array and restores the
  shape: with \<open>n\<close> elements and \<open>s = shift % n\<close>, the result takes the elements at the
  indices \<open>n - s, \<dots>, n - 1, 0, \<dots>, n - s - 1\<close>; an empty array is returned as it is.
\<close>

definition roll_flat :: "'a list \<Rightarrow> int \<Rightarrow> 'a list" where
  "roll_flat xs shift =
     (let n = length xs in
      if n = 0 then xs
      else (let s = nat (shift mod int n) in drop (n - s) xs @ take (n - s) xs))"

definition np_roll :: "ndarray \<Rightarrow> int \<Rightarrow> ndarray" where
  "np_roll a shift = a\<lparr>arr_flat := roll_flat (arr_flat a) shift\<rparr>"

text \<open>The part of \<^verbatim>\<open>get_frame\<close> before the processing transform: read, decode, roll back.\<close>

definition stream_label :: "int \<Rightarrow> path" where
  "stream_label j = [''Image'', ''Item('' @ str_of_int j @ '')'', ''Contents'']"

definition decode_frame :: "zvi \<Rightarrow> int \<Rightarrow> world \<Rightarrow> (error + ndarray) \<times> world" where
  "decode_frame z j w =
     (case openstream_read (zvi_ole z) (stream_label j) w of
        (Inl e, w') \<Rightarrow> (Inl e, w')
      | (Inr data, w') \<Rightarrow>
          (case Image_fromstring (zvi_im_sz z) data of
             Inl e \<Rightarrow> (Inl e, w')
           | Inr img \<Rightarrow> (Inr (np_roll (np_asarray img (zvi_dtype z)) (- 162)), w')))"

definition get_frame :: "zvi \<Rightarrow> int \<Rightarrow> world \<Rightarrow> (error + frame) \<times> world" where
  "get_frame z j w =
     (case decode_frame z j w of
        (Inl e, w') \<Rightarrow> (Inl e, w')
      | (Inr arr, w') \<Rightarrow> (Inr \<lparr>frame_arr = zvi_process_func z arr, frame_no = j\<rparr>, w'))"

section \<open>Indexed retrieval\<close>

text \<open>
  Modelled from the spec: the indexed retrieval \<^verbatim>\<open>__getitem__\<close> of the base class
  \<^verbatim>\<open>FramesSequence\<close>, which is not part of the sources. It fails with \<open>IndexError\<close> if the
  index is negative beyond the negative-indexing convention or is not below the length
  after normalisation (negative indices count from the end); otherwise it delegates to
  \<open>get_frame\<close> with the normalised index.
\<close>

definition get :: "zvi \<Rightarrow> int \<Rightarrow> world \<Rightarrow> (error + frame) \<times> world" where
  "get z key w =
     (let n = int (len z) in
      if key < - n \<or> key \<ge> n then (Inl IndexError, w)
      else get_frame z (if key < 0 then key + n else key) w)"

section \<open>Recognised paths\<close>

text \<open>
  What one round of the loop does with a path, read off the loop body itself: the path is
  recognised with item number \<open>n\<close> when the round appends \<open>n\<close> to the table of contents;
  the round raises when a subscript is out of range.
\<close>

definition recognised :: "path \<Rightarrow> nat option" where
  "recognised stream = (case toc_step stream [] of Inr [n] \<Rightarrow> Some n | _ \<Rightarrow> None)"

definition raises :: "path \<Rightarrow> bool" where
  "raises stream = (case toc_step stream [] of Inl _ \<Rightarrow> True | Inr _ \<Rightarrow> False)"

definition item_numbers :: "path list \<Rightarrow> nat list" where
  "item_numbers streams = List.map_filter recognised streams"

text \<open>
  The pattern \<^verbatim>\<open>Item(<digits>)\<close> matched against a whole string, and a path whose first
  component is \<^verbatim>\<open>Image\<close> and whose second component matches the pattern in its entirety.
\<close>

definition Item_pattern :: "string \<Rightarrow> bool" where
  "Item_pattern s =
     (let ds = butlast (drop 5 s)
      in ds \<noteq> [] \<and> list_all is_digit ds \<and> s = ''Item('' @ ds @ '')'')"

definition frame_path :: "path \<Rightarrow> bool" where
  "frame_path stream =
     (case stream of a # b # _ \<Rightarrow> a = ''Image'' \<and> Item_pattern b | _ \<Rightarrow> False)"

section \<open>Example containers\<close>

text \<open>A container given by its streams, in the order of the listing, and their contents.\<close>

definition ole_of :: "(path \<times> byte list) list \<Rightarrow> ole" where
  "ole_of entries = \<lparr>ole_streams = map fst entries, ole_read = map_of entries\<rparr>"

text \<open>
  A sequence of frames four samples wide and one high, the item 2 absent, the frames
  listed out of order, one stream with a byte in excess.
\<close>

definition ex_ole :: ole where
  "ex_ole = ole_of [([''Image'', ''Contents''], [7]),
             ([''Image'', ''Item(0)'', ''Contents''], [1, 0, 2, 0, 3, 0, 4, 0]),
             ([''Image'', ''Item(3)'', ''Contents''], [1, 1, 2, 1, 3, 1, 4, 1]),
             ([''Image'', ''Item(1)'', ''Contents''], [5, 0, 6, 0, 7, 0, 8, 0, 9])]"

text \<open>The same streams, the first frame cut short.\<close>

definition short_ole :: ole where
  "short_ole = ole_of [([''Image'', ''Item(0)'', ''Contents''], [1, 0, 2, 0, 3, 0]),
                ([''Image'', ''Item(1)'', ''Contents''], [5, 0, 6, 0, 7, 0, 8, 0]),
                ([''Image'', ''Item(3)'', ''Contents''], [1, 1, 2, 1, 3, 1, 4, 1])]"

text \<open>A container whose only stream is a stream \<^verbatim>\<open>Image\<close> at the root.\<close>

definition image_only_ole :: ole where
  "image_only_ole = ole_of [([''Image''], [1, 2, 3])]"

definition ex_world :: world where
  "ex_world = \<lparr>files = [''seq.zvi'' \<mapsto> ex_ole, ''short.zvi'' \<mapsto> short_ole,
                          ''image.zvi'' \<mapsto> image_only_ole],
                io_log = []\<rparr>"

definition ex_zvi :: zvi where
  "ex_zvi = \<lparr>zvi_filename = ''seq.zvi'', zvi_ole = ex_ole, zvi_streams = listdir ex_ole,
             zvi_dtype = UInt16, zvi_im_sz = (4, 1), zvi_toc = [0, 3, 1], zvi_len = 3,
             zvi_process_func = (\<lambda>img. img)\<rparr>"

definition short_zvi :: zvi where
  "short_zvi = \<lparr>zvi_filename = ''short.zvi'', zvi_ole = short_ole,
                zvi_streams = listdir short_ole,
                zvi_dtype = UInt16, zvi_im_sz = (4, 1), zvi_toc = [0, 1, 3], zvi_len = 3,
                zvi_process_func = (\<lambda>img. img)\<rparr>"

text \<open>A container with gaps, its frames listed out of order, and without contents.\<close>

definition gap_ole :: ole where
  "gap_ole = ole_of [([''Image'', ''Item(5)'', ''Contents''], []),
              ([''Tags'', ''Contents''], [1]),
              ([''Image'', ''Item(2)'', ''Contents''], [])]"

definition gap_world :: world where
  "gap_world = \<lparr>files = [''gaps.zvi'' \<mapsto> gap_ole], io_log = []\<rparr>"

section \<open>The loop in closed form\<close>

lemma toc_step_append:
  "toc_step p toc = (if raises p then Inl IndexError
     else Inr (toc @ (case recognised p of None \<Rightarrow> [] | Some n \<Rightarrow> [n])))"
  by (auto simp: toc_step_def recognised_def raises_def subscript_def
      split: sum.splits option.splits)

lemma toc_loop_eq:
  "toc_loop ps toc = (if \<exists>p\<in>set ps. raises p then Inl IndexError
     else Inr (toc @ item_numbers ps))"
proof (induction ps arbitrary: toc)
  case Nil
  then show ?case by (simp add: item_numbers_def)
next
  case (Cons p ps)
  show ?case
    by (simp add: toc_step_append [of p toc] Cons.IH item_numbers_def split: option.splits)
qed

lemma py_max_eq: "py_max xs = (if xs = [] then Inl EmptyIndexError else Inr (Max (set xs)))"
  by (cases xs) (simp_all add: Max.set_eq_fold [symmetric])

lemma raises_iff: "raises p \<longleftrightarrow> p = [] \<or> p = [''Image'']"
proof (cases p)
  case Nil
  then show ?thesis by (simp add: raises_def toc_step_def subscript_def)
next
  case (Cons a as)
  then show ?thesis
    by (cases as) (auto simp add: raises_def toc_step_def subscript_def split: option.splits)
qed

lemma item_numbers_mset:
  "mset ps = mset qs \<Longrightarrow> mset (item_numbers ps) = mset (item_numbers qs)"
  unfolding item_numbers_def map_filter_def by simp

lemma item_numbers_set:
  "mset ps = mset qs \<Longrightarrow> set (item_numbers ps) = set (item_numbers qs)"
  by (metis item_numbers_mset set_mset_mset)

text \<open>The constructor, with the loop and the maximum in closed form.\<close>

lemma ZVI_init_eq:
  "ZVI_init fn sh pf d ag w =
     (let w' = w\<lparr>io_log := io_log w @ [OpenFile fn]\<rparr> in
      case files w fn of
        None \<Rightarrow> (Inl ContainerOpenError, w')
      | Some c \<Rightarrow>
          if \<exists>p\<in>set (listdir c). raises p then (Inl IndexError, w')
          else if item_numbers (listdir c) = [] then (Inl EmptyIndexError, w')
          else if ag \<and> pf \<noteq> None then (Inl ConfigurationError, w')
          else (Inr \<lparr>zvi_filename = fn, zvi_ole = c, zvi_streams = listdir c,
                     zvi_dtype = UInt16, zvi_im_sz = sh, zvi_toc = item_numbers (listdir c),
                     zvi_len = Max (set (item_numbers (listdir c))),
                     zvi_process_func = validate_process_func pf\<rparr>, w'))"
  by (auto simp add: ZVI_init_def OleFileIO_def Let_def toc_loop_eq py_max_eq
      as_grey_option_def split: option.splits)

text \<open>When the constructor returns a sequence.\<close>

lemma ZVI_init_returns:
  assumes "files w fn = Some c" and "\<forall>p\<in>set (listdir c). \<not> raises p"
    and "item_numbers (listdir c) \<noteq> []" and "\<not> (ag \<and> pf \<noteq> None)"
  shows "\<exists>z. fst (ZVI_init fn sh pf d ag w) = Inr z"
  using assms by (auto simp add: ZVI_init_eq Let_def)

lemma item_numbers_gap: "item_numbers (listdir gap_ole) = [5, 2]"
  by (simp add: item_numbers_def listdir_def gap_ole_def ole_of_def recognised_def toc_step_def
      subscript_def re_match_Item_def is_digit_def py_int_def digit_val_def)

lemma raises_gap: "\<not> (\<exists>p\<in>set (listdir gap_ole). raises p)"
  by (simp add: listdir_def gap_ole_def ole_of_def raises_iff)

section \<open>Rolling is rotating\<close>

lemma roll_flat_neg: "roll_flat xs (- int k) = rotate k xs"
proof (cases "xs = []")
  case True
  then show ?thesis by (simp add: roll_flat_def)
next
  case False
  let ?n = "length xs"
  have n: "0 < ?n" using False by simp
  have m: "k mod ?n < ?n" using n by simp
  have s: "?n - nat ((- int k) mod int ?n) = (if k mod ?n = 0 then ?n else k mod ?n)"
    using n m
    by (simp add: zmod_zminus1_eq_if zmod_int [symmetric] nat_diff_distrib' del: of_nat_mod)
  show ?thesis
  proof (cases "k mod ?n = 0")
    case True
    then show ?thesis using False s by (simp add: roll_flat_def Let_def)
  next
    case nz: False
    then show ?thesis using False s by (simp add: roll_flat_def Let_def rotate_drop_take)
  qed
qed

lemma roll_flat_pos: "roll_flat xs (int k) = rotate (length xs - k mod length xs) xs"
proof (cases "xs = []")
  case True
  then show ?thesis by (simp add: roll_flat_def)
next
  case False
  let ?n = "length xs"
  have n: "0 < ?n" using False by simp
  have s: "nat (int k mod int ?n) = k mod ?n"
    by (simp add: zmod_int [symmetric] del: of_nat_mod)
  show ?thesis
  proof (cases "k mod ?n = 0")
    case True
    then show ?thesis using False s by (simp add: roll_flat_def Let_def)
  next
    case nz: False
    have "(?n - k mod ?n) mod ?n = ?n - k mod ?n" using nz n by simp
    then show ?thesis using False s by (simp add: roll_flat_def Let_def rotate_drop_take)
  qed
qed

lemma length_roll_flat [simp]: "length (roll_flat xs s) = length xs"
  by (simp add: roll_flat_def Let_def)

lemma roll_flat_inverse: "roll_flat (roll_flat xs (- int k)) (int k) = xs"
proof (cases "xs = []")
  case True
  then show ?thesis by (simp add: roll_flat_def)
next
  case False
  let ?n = "length xs"
  define q where "q = k div ?n"
  define m where "m = k mod ?n"
  have k: "k = ?n * q + m" by (simp add: q_def m_def)
  have m: "m < ?n" using False by (simp add: m_def)
  then have "?n - m + (?n * q + m) = ?n * Suc q" by simp
  then have p: "(?n - m + (?n * q + m)) mod ?n = 0" by (simp only: mod_mult_self1_is_0)
  have "(?n - m + k) mod ?n = 0" by (subst k) (rule p)
  then have z: "(?n - k mod ?n + k) mod ?n = 0" by (simp add: m_def)
  have "roll_flat (roll_flat xs (- int k)) (int k) = rotate (?n - k mod ?n + k) xs"
    by (simp add: roll_flat_neg roll_flat_pos rotate_rotate)
  also have "\<dots> = xs"
    using z by (rule rotate_id)
  finally show ?thesis .
qed

lemma roll_flat_nth:
  "i < length xs \<Longrightarrow> roll_flat xs (- int k) ! i = xs ! ((i + k) mod length xs)"
  by (simp add: roll_flat_neg nth_rotate add.commute)

section \<open>Little-endian samples\<close>

lemma unat_le16:
  fixes lo hi :: byte
  shows "unat (ucast lo OR push_bit 8 (ucast hi) :: 16 word) = unat lo + 256 * unat hi"
proof -
  have lo: "unat lo < 256" using unsigned_less [of lo, where ?'a = nat] by simp
  have hi: "unat hi < 256" using unsigned_less [of hi, where ?'a = nat] by simp
  have "(ucast lo OR push_bit 8 (ucast hi) :: 16 word) = push_bit 8 (ucast hi) + ucast lo"
    using word_cat_eq [of hi lo, where 'c = 16] word_cat_eq_push_bit_or [of hi lo, where 'c = 16]
    by (simp add: or.commute)
  then have "unat (ucast lo OR push_bit 8 (ucast hi) :: 16 word)
      = (take_bit 16 (push_bit 8 (take_bit 16 (unat hi))) + take_bit 16 (unat lo)) mod 2 ^ 16"
    by (simp add: unat_word_ariths unsigned_push_bit_eq unsigned_ucast_eq)
  also have "\<dots> = unat lo + 256 * unat hi"
    using lo hi by (simp add: take_bit_eq_mod push_bit_eq_mult)
  finally show ?thesis .
qed

lemma length_le16_samples: "length (le16_samples bs) = length bs div 2"
  by (induction bs rule: le16_samples.induct) simp_all

lemma le16_samples_nth:
  "k < length bs div 2 \<Longrightarrow>
     unat (le16_samples bs ! k) = unat (bs ! (2 * k)) + 256 * unat (bs ! (2 * k + 1))"
proof (induction bs arbitrary: k rule: le16_samples.induct)
  case (1 lo hi bs)
  show ?case
  proof (cases k)
    case 0
    then show ?thesis by (simp add: unat_le16)
  next
    case (Suc k')
    with "1.prems" have "k' < length bs div 2" by simp
    from "1.IH" [OF this] Suc show ?thesis by simp
  qed
qed simp_all

section \<open>The length of the sequence\<close>

text \<open>
  C1. Whenever a sequence is constructed, at least one path of the container's listing is
  recognised and the reported length is the maximum of the recognised item numbers (not
  their count); the same holds, with the same length, for every container that lists the
  same streams in another order.
\<close>

theorem length_is_max_item_number:
  assumes "fst (ZVI_init fn sh pf d ag w) = Inr z"
  shows "files w fn = Some (zvi_ole z)
       \<and> item_numbers (listdir (zvi_ole z)) \<noteq> []
       \<and> len z = Max (set (item_numbers (listdir (zvi_ole z))))
       \<and> (\<forall>c'. mset (listdir c') = mset (listdir (zvi_ole z)) \<longrightarrow>
             (\<exists>z'. fst (ZVI_init fn sh pf d ag (w\<lparr>files := (files w)(fn \<mapsto> c')\<rparr>)) = Inr z'
                  \<and> len z' = len z))"
proof -
  from assms obtain c where c: "files w fn = Some c"
    by (auto simp: ZVI_init_eq Let_def split: option.splits)
  from assms c have ok: "\<not> (\<exists>p\<in>set (listdir c). raises p)" "item_numbers (listdir c) \<noteq> []"
      "\<not> (ag \<and> pf \<noteq> None)"
    by (auto simp: ZVI_init_eq Let_def split: if_splits)
  from assms c ok have z: "zvi_ole z = c" "zvi_len z = Max (set (item_numbers (listdir c)))"
    by (auto simp: ZVI_init_eq Let_def)
  have perm: "\<exists>z'. fst (ZVI_init fn sh pf d ag (w\<lparr>files := (files w)(fn \<mapsto> c')\<rparr>)) = Inr z'
                  \<and> len z' = len z" if m: "mset (listdir c') = mset (listdir c)" for c'
  proof -
    from m have s: "set (listdir c') = set (listdir c)"
      by (metis set_mset_mset)
    from m have i: "set (item_numbers (listdir c')) = set (item_numbers (listdir c))"
      by (rule item_numbers_set)
    with ok(2) have ne: "item_numbers (listdir c') \<noteq> []"
      by (metis set_empty)
    show ?thesis
      using ok s i ne z by (simp add: ZVI_init_eq Let_def len_def)
  qed
  show ?thesis
    using c ok z perm by (simp add: len_def)
qed

text \<open>
  The container \<open>gap_ole\<close> lists the items 5 and 2, in this order: two recognised streams,
  length 5, also when the listing is reversed.
\<close>

theorem length_is_max_item_number_witness:
  "fst (ZVI_init ''gaps.zvi'' (4, 1) None UInt8 False gap_world)
     = Inr \<lparr>zvi_filename = ''gaps.zvi'', zvi_ole = gap_ole, zvi_streams = listdir gap_ole,
            zvi_dtype = UInt16, zvi_im_sz = (4, 1), zvi_toc = [5, 2], zvi_len = 5,
            zvi_process_func = (\<lambda>img. img)\<rparr>
   \<and> item_numbers (listdir gap_ole) = [5, 2]
   \<and> (\<exists>z'. fst (ZVI_init ''gaps.zvi'' (4, 1) None UInt8 False
               (gap_world\<lparr>files := (files gap_world)
                  (''gaps.zvi'' \<mapsto> gap_ole\<lparr>ole_streams := rev (ole_streams gap_ole)\<rparr>)\<rparr>)) = Inr z'
            \<and> len z' = 5)"
proof -
  let ?z = "\<lparr>zvi_filename = ''gaps.zvi'', zvi_ole = gap_ole, zvi_streams = listdir gap_ole,
            zvi_dtype = UInt16, zvi_im_sz = (4, 1), zvi_toc = [5, 2], zvi_len = 5,
            zvi_process_func = (\<lambda>img. img)\<rparr>"
  have h: "fst (ZVI_init ''gaps.zvi'' (4, 1) None UInt8 False gap_world) = Inr ?z"
    by (simp add: ZVI_init_eq gap_world_def raises_gap item_numbers_gap validate_process_func_def)
  have "mset (listdir (gap_ole\<lparr>ole_streams := rev (ole_streams gap_ole)\<rparr>))
      = mset (listdir (zvi_ole ?z))"
    by (simp add: listdir_def)
  with length_is_max_item_number [OF h] show ?thesis
    using h by (simp add: item_numbers_gap len_def)
qed

section \<open>The decoder in closed form\<close>

lemma decode_frame_eq:
  "decode_frame z j w =
     (let w' = w\<lparr>io_log := io_log w @ [OpenStream (stream_label j)]\<rparr> in
      case ole_read (zvi_ole z) (stream_label j) of
        None \<Rightarrow> (Inl MissingFrameError, w')
      | Some data \<Rightarrow>
          (case zvi_im_sz z of (width, height) \<Rightarrow>
             if length data < width * height * 2 then (Inl DecodeError, w')
             else (Inr \<lparr>arr_shape = (height, width), arr_dtype = zvi_dtype z,
                        arr_flat = roll_flat
                          (map (\<lambda>p. unat p mod 2 ^ dtype_bits (zvi_dtype z))
                             (le16_samples (take (width * height * 2) data))) (- 162)\<rparr>, w')))"
  by (simp add: decode_frame_def openstream_read_def Image_fromstring_def np_asarray_def
      np_roll_def Let_def split: option.splits prod.splits)

lemma get_frame_eq:
  "get_frame z j w = (case fst (decode_frame z j w) of
       Inl e \<Rightarrow> Inl e
     | Inr arr \<Rightarrow> Inr \<lparr>frame_arr = zvi_process_func z arr, frame_no = j\<rparr>,
     w\<lparr>io_log := io_log w @ [OpenStream (stream_label j)]\<rparr>)"
  by (simp add: get_frame_def decode_frame_eq Let_def split: option.splits prod.splits sum.splits)

lemma unat_mod_16 [simp]: "unat (p :: 16 word) mod 65536 = unat p"
  using unsigned_less [of p, where ?'a = nat] by simp

lemma init_success:
  assumes "fst (ZVI_init fn sh pf d ag w) = Inr z"
  shows "zvi_im_sz z = sh" "zvi_dtype z = UInt16" "zvi_process_func z = validate_process_func pf"
    "zvi_len z = Max (set (item_numbers (listdir (zvi_ole z))))"
    "item_numbers (listdir (zvi_ole z)) \<noteq> []"
    "files w fn = Some (zvi_ole z)"
  using assms by (auto simp: ZVI_init_eq Let_def split: option.splits if_splits)

lemma get_in_range: "0 \<le> j \<Longrightarrow> j < int (len z) \<Longrightarrow> get z j w = get_frame z j w"
  by (simp add: get_def Let_def)

lemma decode_frame_present:
  assumes "ole_read (zvi_ole z) (stream_label j) = Some data"
    and "zvi_im_sz z = (width, height)" and "width * height * 2 \<le> length data"
  shows "\<exists>arr. fst (decode_frame z j w) = Inr arr"
  using assms by (simp add: decode_frame_eq)

lemma get_frame_present:
  assumes "ole_read (zvi_ole z) (stream_label j) = Some data"
    and "zvi_im_sz z = (width, height)" and "width * height * 2 \<le> length data"
  shows "\<exists>f. fst (get_frame z j w) = Inr f"
  using decode_frame_present [OF assms, of w] by (auto simp add: get_frame_eq)

lemma get_frame_absent:
  "ole_read (zvi_ole z) (stream_label j) = None \<Longrightarrow> fst (get_frame z j w) = Inl MissingFrameError"
  by (simp add: get_frame_eq decode_frame_eq)





section \<open>The example containers, evaluated\<close>

lemma stream_label_0: "stream_label 0 = [''Image'', ''Item(0)'', ''Contents'']"
  by (simp add: stream_label_def str_of_int_def str_of_nat.simps digit_char_def)

lemma stream_label_1: "stream_label 1 = [''Image'', ''Item(1)'', ''Contents'']"
  by (simp add: stream_label_def str_of_int_def str_of_nat.simps digit_char_def)

lemma stream_label_2: "stream_label 2 = [''Image'', ''Item(2)'', ''Contents'']"
  by (simp add: stream_label_def str_of_int_def str_of_nat.simps digit_char_def)

lemma stream_label_3: "stream_label 3 = [''Image'', ''Item(3)'', ''Contents'']"
  by (simp add: stream_label_def str_of_int_def str_of_nat.simps digit_char_def)

lemma item_numbers_ex: "item_numbers (listdir ex_ole) = [0, 3, 1]"
  by (simp add: item_numbers_def listdir_def ex_ole_def ole_of_def recognised_def toc_step_def
      subscript_def re_match_Item_def is_digit_def py_int_def digit_val_def)

lemma raises_ex: "\<not> (\<exists>p\<in>set (listdir ex_ole). raises p)"
  by (simp add: listdir_def ex_ole_def ole_of_def raises_iff)

lemma init_ex:
  "ZVI_init ''seq.zvi'' (4, 1) None d False ex_world
     = (Inr ex_zvi, ex_world\<lparr>io_log := [OpenFile ''seq.zvi'']\<rparr>)"
  by (simp add: ZVI_init_eq ex_world_def raises_ex item_numbers_ex validate_process_func_def
      ex_zvi_def)

lemma decode_ex_0:
  "fst (decode_frame ex_zvi 0 w) = Inr \<lparr>arr_shape = (1, 4), arr_dtype = UInt16, arr_flat = [3, 4, 1, 2]\<rparr>"
  by (simp add: decode_frame_eq stream_label_0 ex_zvi_def ex_ole_def ole_of_def roll_flat_def)

lemma decode_ex_1:
  "fst (decode_frame ex_zvi 1 w) = Inr \<lparr>arr_shape = (1, 4), arr_dtype = UInt16, arr_flat = [7, 8, 5, 6]\<rparr>"
  by (simp add: decode_frame_eq stream_label_1 ex_zvi_def ex_ole_def ole_of_def roll_flat_def)

lemma decode_ex_2:
  "fst (decode_frame ex_zvi 2 w) = Inl MissingFrameError"
  by (simp add: decode_frame_eq stream_label_2 ex_zvi_def ex_ole_def ole_of_def roll_flat_def)

lemma decode_ex_3:
  "fst (decode_frame ex_zvi 3 w) = Inr \<lparr>arr_shape = (1, 4), arr_dtype = UInt16, arr_flat = [259, 260, 257, 258]\<rparr>"
  by (simp add: decode_frame_eq stream_label_3 ex_zvi_def ex_ole_def ole_of_def roll_flat_def)

lemma item_numbers_short: "item_numbers (listdir short_ole) = [0, 1, 3]"
  by (simp add: item_numbers_def listdir_def short_ole_def ole_of_def recognised_def toc_step_def
      subscript_def re_match_Item_def is_digit_def py_int_def digit_val_def)

lemma raises_short: "\<not> (\<exists>p\<in>set (listdir short_ole). raises p)"
  by (simp add: listdir_def short_ole_def ole_of_def raises_iff)

lemma init_short:
  "ZVI_init ''short.zvi'' (4, 1) None d False ex_world
     = (Inr short_zvi, ex_world\<lparr>io_log := [OpenFile ''short.zvi'']\<rparr>)"
  by (simp add: ZVI_init_eq ex_world_def raises_short item_numbers_short
      validate_process_func_def short_zvi_def)

section \<open>The pattern and the parsed number\<close>

lemma not_digit_paren [simp]: "\<not> is_digit CHR '')''"
  by (simp add: is_digit_def)

lemma re_match_Item_Some_iff:
  "re_match_Item s = Some ds \<longleftrightarrow>
     ds \<noteq> [] \<and> (\<forall>c\<in>set ds. is_digit c) \<and> (\<exists>tail. s = ''Item('' @ ds @ '')'' @ tail)"
proof
  assume a: "re_match_Item s = Some ds"
  let ?r = "drop 5 s"
  from a have p: "take 5 s = ''Item(''" and ds: "ds = takeWhile is_digit ?r" and ne: "ds \<noteq> []"
    and cl: "take 1 (dropWhile is_digit ?r) = '')''"
    by (auto simp add: re_match_Item_def Let_def split: if_splits)
  from cl obtain tail where t: "dropWhile is_digit ?r = '')'' @ tail"
    by (metis append_take_drop_id)
  have "s = take 5 s @ ?r" by simp
  also have "?r = takeWhile is_digit ?r @ dropWhile is_digit ?r" by simp
  finally have "s = ''Item('' @ ds @ '')'' @ tail"
    using p ds t by simp
  moreover have "\<forall>c\<in>set ds. is_digit c"
    using ds by (auto dest: set_takeWhileD)
  ultimately show "ds \<noteq> [] \<and> (\<forall>c\<in>set ds. is_digit c) \<and> (\<exists>tail. s = ''Item('' @ ds @ '')'' @ tail)"
    using ne by blast
next
  assume "ds \<noteq> [] \<and> (\<forall>c\<in>set ds. is_digit c) \<and> (\<exists>tail. s = ''Item('' @ ds @ '')'' @ tail)"
  then obtain tail where ne: "ds \<noteq> []" and dg: "\<forall>c\<in>set ds. is_digit c"
    and s: "s = ''Item('' @ ds @ '')'' @ tail"
    by blast
  have tw: "takeWhile is_digit (ds @ CHR '')'' # tail) = ds"
    using dg by (simp add: takeWhile_append2 del: takeWhile_append)
  have dw: "dropWhile is_digit (ds @ CHR '')'' # tail) = CHR '')'' # tail"
    using dg by (simp add: dropWhile_append2 del: dropWhile_append)
  show "re_match_Item s = Some ds"
    using ne tw dw by (simp add: re_match_Item_def s Let_def)
qed

lemma Item_pattern_iff:
  "Item_pattern s \<longleftrightarrow> (\<exists>ds. ds \<noteq> [] \<and> (\<forall>c\<in>set ds. is_digit c) \<and> s = ''Item('' @ ds @ '')'')"
proof
  assume "Item_pattern s"
  then show "\<exists>ds. ds \<noteq> [] \<and> (\<forall>c\<in>set ds. is_digit c) \<and> s = ''Item('' @ ds @ '')''"
    unfolding Item_pattern_def Let_def list_all_iff by blast
next
  assume "\<exists>ds. ds \<noteq> [] \<and> (\<forall>c\<in>set ds. is_digit c) \<and> s = ''Item('' @ ds @ '')''"
  then obtain ds where "ds \<noteq> []" "\<forall>c\<in>set ds. is_digit c" "s = ''Item('' @ ds @ '')''"
    by blast
  then show "Item_pattern s"
    by (simp add: Item_pattern_def Let_def list_all_iff butlast_append)
qed

lemma py_int_snoc: "py_int (ds @ [c]) = 10 * py_int ds + digit_val c"
  by (simp add: py_int_def)

lemma digit_val_digit_char: "d < 10 \<Longrightarrow> digit_val (digit_char d) = d"
proof -
  assume "d < 10"
  then have "d \<in> {0, 1, 2, 3, 4, 5, 6, 7, 8, 9}" by auto
  then show ?thesis
    by (auto simp add: digit_val_def digit_char_def)
qed

lemma py_int_str_of_nat: "py_int (str_of_nat n) = n"
proof (induction n rule: str_of_nat.induct)
  case (1 n)
  show ?case
  proof (cases "n < 10")
    case True
    then show ?thesis
      by (subst str_of_nat.simps) (simp add: py_int_def digit_val_digit_char)
  next
    case False
    with "1.IH" show ?thesis
      by (subst str_of_nat.simps) (simp add: py_int_snoc digit_val_digit_char)
  qed
qed

lemma recognised_Some_iff:
  "recognised stream = Some n \<longleftrightarrow>
     (\<exists>b rest ds. stream = ''Image'' # b # rest \<and> re_match_Item b = Some ds \<and> n = py_int ds)"
proof (cases stream)
  case Nil
  then show ?thesis by (simp add: recognised_def toc_step_def subscript_def)
next
  case (Cons a as)
  then show ?thesis
    by (cases as)
       (auto simp add: recognised_def toc_step_def subscript_def split: option.splits)
qed

section \<open>Retrieval of a frame\<close>

text \<open>
  C2 (amended). For a constructed sequence of positive width and height and an index \<open>j\<close>
  with \<open>0 \<le> j < len\<close> whose stream \<^verbatim>\<open>Image/Item(j)/Contents\<close> exists and holds at least
  \<open>width * height * 2\<close> bytes, the retrieval is the decoder's result: a frame tagged \<open>j\<close>
  whose array is the processing transform (the identity by default) applied to the decoded
  array. The decoded array has shape \<open>(height, width)\<close>, which is \<open>frame_shape\<close> =
  \<open>(width, height)\<close> with its components swapped; its elements in row-major order are the
  first \<open>width * height\<close> samples of the stream, each the unsigned value of two bytes with
  the low byte first, rolled back by 162.
\<close>

theorem get_returns_decoded_frame:
  assumes "fst (ZVI_init fn (width, height) pf d ag w0) = Inr z"
    and "0 \<le> j" and "j < int (len z)"
    and "ole_read (zvi_ole z) [''Image'', ''Item('' @ str_of_int j @ '')'', ''Contents''] = Some data"
    and "width * height * 2 \<le> length data"
    and "0 < width" and "0 < height"
  shows "frame_shape z = (width, height)
       \<and> get z j w = get_frame z j w
       \<and> fst (get z j w) =
           Inr \<lparr>frame_arr = validate_process_func pf
                   (np_roll \<lparr>arr_shape = (height, width), arr_dtype = UInt16,
                             arr_flat = map unat (le16_samples (take (width * height * 2) data))\<rparr>
                      (- 162)),
                 frame_no = j\<rparr>
       \<and> length (le16_samples (take (width * height * 2) data)) = width * height
       \<and> (\<forall>k<width * height.
             unat (le16_samples (take (width * height * 2) data) ! k)
               = unat (data ! (2 * k)) + 256 * unat (data ! (2 * k + 1)))"
proof -
  note z = init_success [OF assms(1)]
  let ?bs = "take (width * height * 2) data"
  have len: "length ?bs = width * height * 2" using assms(5) by simp
  have n: "length (le16_samples ?bs) = width * height"
    using assms(5) by (simp add: length_le16_samples min_def)
  have nth: "unat (le16_samples ?bs ! k) = unat (data ! (2 * k)) + 256 * unat (data ! (2 * k + 1))"
    if "k < width * height" for k
  proof -
    from that assms(5) have "k < length ?bs div 2" by (simp add: min_def)
    from le16_samples_nth [OF this] that show ?thesis by simp
  qed
  have g: "get z j w = get_frame z j w"
    using assms(2,3) by (rule get_in_range)
  have f: "fst (get_frame z j w) =
           Inr \<lparr>frame_arr = validate_process_func pf
                   (np_roll \<lparr>arr_shape = (height, width), arr_dtype = UInt16,
                             arr_flat = map unat (le16_samples ?bs)\<rparr> (- 162)),
                 frame_no = j\<rparr>"
    using assms(4,5) z(1,2,3)
    by (simp add: get_frame_eq decode_frame_eq stream_label_def np_roll_def)
  show ?thesis
    using g f n nth z(1) by (simp add: frame_shape_def)
qed

text \<open>
  The frame 1 of the example: its stream has a byte in excess, which is ignored.
\<close>

theorem get_returns_decoded_frame_witness:
  "fst (get ex_zvi 1 ex_world) =
      Inr \<lparr>frame_arr = \<lparr>arr_shape = (1, 4), arr_dtype = UInt16, arr_flat = [7, 8, 5, 6]\<rparr>,
            frame_no = 1\<rparr>
   \<and> frame_shape ex_zvi = (4, 1)"
proof -
  have i: "fst (ZVI_init ''seq.zvi'' (4, 1) None () False ex_world) = Inr ex_zvi"
    using init_ex [of "()"] by simp
  have l: "(1::int) < int (len ex_zvi)" by (simp add: len_def ex_zvi_def)
  have m: "ole_read (zvi_ole ex_zvi) [''Image'', ''Item('' @ str_of_int 1 @ '')'', ''Contents'']
      = Some [5, 0, 6, 0, 7, 0, 8, 0, 9]"
    by (simp add: ex_zvi_def ex_ole_def ole_of_def str_of_int_def str_of_nat.simps digit_char_def)
  have s: "4 * 1 * 2 \<le> length [5, 0, 6, 0, 7, 0, 8, 0, 9 :: byte]" by simp
  from get_returns_decoded_frame [OF i _ l m s, of ex_world] show ?thesis
    by (auto simp add: validate_process_func_def np_roll_def roll_flat_def)
qed

text \<open>
  C2 as stated fails: for the example sequence of shape \<open>(4, 1)\<close> the frame 0 is an array of
  shape \<open>(1, 4)\<close>, which is not \<open>frame_shape\<close>.
\<close>

theorem frame_array_shape_is_swapped:
  "fst (ZVI_init ''seq.zvi'' (4, 1) None () False ex_world) = Inr ex_zvi
   \<and> fst (get ex_zvi 0 ex_world) =
      Inr \<lparr>frame_arr = \<lparr>arr_shape = (1, 4), arr_dtype = UInt16, arr_flat = [3, 4, 1, 2]\<rparr>,
            frame_no = 0\<rparr>
   \<and> frame_shape ex_zvi = (4, 1)
   \<and> (1, 4) \<noteq> frame_shape ex_zvi"
  using init_ex [of "()"] decode_ex_0 [of ex_world]
  by (simp add: get_def len_def get_frame_eq frame_shape_def) (simp add: ex_zvi_def)

section \<open>A gap in the item numbers\<close>

text \<open>
  C3 (amended). For a constructed sequence of positive width and height whose recognised
  item numbers are 0, 1 and 3, whose streams \<^verbatim>\<open>Image/Item(0)/Contents\<close>,
  \<^verbatim>\<open>Image/Item(1)/Contents\<close> and \<^verbatim>\<open>Image/Item(3)/Contents\<close> each hold a full frame and
  whose stream \<^verbatim>\<open>Image/Item(2)/Contents\<close> is absent: the length is 3; the retrievals at 0
  and 1 succeed;
  the retrieval at 2 returns the missing-stream error to the caller; the retrieval at 3
  is rejected with \<open>IndexError\<close>, since 3 is not below the length, although the decoder
  \<open>get_frame\<close> itself succeeds at 3.
\<close>

theorem gap_is_reported_per_request:
  assumes "fst (ZVI_init fn (width, height) pf d ag w0) = Inr z"
    and "set (item_numbers (listdir (zvi_ole z))) = {0, 1, 3}"
    and "ole_read (zvi_ole z) [''Image'', ''Item(0)'', ''Contents''] = Some d0"
    and "ole_read (zvi_ole z) [''Image'', ''Item(1)'', ''Contents''] = Some d1"
    and "ole_read (zvi_ole z) [''Image'', ''Item(2)'', ''Contents''] = None"
    and "ole_read (zvi_ole z) [''Image'', ''Item(3)'', ''Contents''] = Some d3"
    and "width * height * 2 \<le> length d0"
    and "width * height * 2 \<le> length d1"
    and "width * height * 2 \<le> length d3"
    and "0 < width" and "0 < height"
  shows "len z = 3
       \<and> (\<exists>f. fst (get z 0 w) = Inr f)
       \<and> (\<exists>f. fst (get z 1 w) = Inr f)
       \<and> fst (get z 2 w) = Inl MissingFrameError
       \<and> fst (get z 3 w) = Inl IndexError
       \<and> (\<exists>f. fst (get_frame z 3 w) = Inr f)"
proof -
  note z = init_success [OF assms(1)]
  have "Max {0, 1, 3 :: nat} = 3" by simp
  with z(4) assms(2) have l: "len z = 3" by (simp add: len_def)
  have g0: "get z 0 w = get_frame z 0 w" using l by (simp add: get_in_range)
  have g1: "get z 1 w = get_frame z 1 w" using l by (simp add: get_in_range)
  have g2: "get z 2 w = get_frame z 2 w" using l by (simp add: get_in_range)
  have g3: "fst (get z 3 w) = Inl IndexError" using l by (simp add: get_def)
  show ?thesis
    using l g3 z(1) assms(3-9)
    by (simp add: g0 g1 g2 get_frame_absent stream_label_2
        get_frame_present [of z 0, unfolded stream_label_0]
        get_frame_present [of z 1, unfolded stream_label_1]
        get_frame_present [of z 3, unfolded stream_label_3])
qed

theorem gap_is_reported_per_request_witness:
  "len ex_zvi = 3
       \<and> (\<exists>f. fst (get ex_zvi 0 ex_world) = Inr f)
       \<and> (\<exists>f. fst (get ex_zvi 1 ex_world) = Inr f)
       \<and> fst (get ex_zvi 2 ex_world) = Inl MissingFrameError
       \<and> fst (get ex_zvi 3 ex_world) = Inl IndexError
       \<and> (\<exists>f. fst (get_frame ex_zvi 3 ex_world) = Inr f)"
proof -
  have i: "fst (ZVI_init ''seq.zvi'' (4, 1) None () False ex_world) = Inr ex_zvi"
    using init_ex [of "()"] by simp
  have s: "set (item_numbers (listdir (zvi_ole ex_zvi))) = {0, 1, 3}"
    using item_numbers_ex by (auto simp add: ex_zvi_def)
  have m0: "ole_read (zvi_ole ex_zvi) [''Image'', ''Item(0)'', ''Contents'']
      = Some [1, 0, 2, 0, 3, 0, 4, 0]"
    by (simp add: ex_zvi_def ex_ole_def ole_of_def)
  have m1: "ole_read (zvi_ole ex_zvi) [''Image'', ''Item(1)'', ''Contents'']
      = Some [5, 0, 6, 0, 7, 0, 8, 0, 9]"
    by (simp add: ex_zvi_def ex_ole_def ole_of_def)
  have m2: "ole_read (zvi_ole ex_zvi) [''Image'', ''Item(2)'', ''Contents''] = None"
    by (simp add: ex_zvi_def ex_ole_def ole_of_def)
  have m3: "ole_read (zvi_ole ex_zvi) [''Image'', ''Item(3)'', ''Contents'']
      = Some [1, 1, 2, 1, 3, 1, 4, 1]"
    by (simp add: ex_zvi_def ex_ole_def ole_of_def)
  show ?thesis
    by (rule gap_is_reported_per_request [OF i s m0 m1 m2 m3]) simp_all
qed

text \<open>
  C3 as stated fails: in the example container with exactly these frames the retrieval at
  3 does not succeed; and with the same paths but a first stream that is too short, the
  retrieval at 0 does not succeed either.
\<close>

theorem last_item_is_out_of_range:
  "fst (ZVI_init ''seq.zvi'' (4, 1) None () False ex_world) = Inr ex_zvi
   \<and> len ex_zvi = 3
   \<and> fst (get ex_zvi 3 ex_world) = Inl IndexError
   \<and> fst (ZVI_init ''short.zvi'' (4, 1) None () False ex_world) = Inr short_zvi
   \<and> fst (get short_zvi 0 ex_world) = Inl DecodeError"
proof -
  have "fst (get short_zvi 0 ex_world) = Inl DecodeError"
    by (simp add: get_def len_def get_frame_eq decode_frame_eq stream_label_0)
       (simp add: short_zvi_def short_ole_def ole_of_def)
  moreover have "fst (get ex_zvi 3 ex_world) = Inl IndexError" "len ex_zvi = 3"
    by (simp_all add: get_def len_def ex_zvi_def)
  ultimately show ?thesis
    using init_ex [of "()"] init_short [of "()"] by simp
qed

section \<open>The two options\<close>

text \<open>
  C4 (amended). Constructing a sequence with both a processing transform and the greyscale
  flag never returns a sequence, and the container file is opened first in every case:
  if the file cannot be opened the error is \<open>ContainerOpenError\<close>; if it opens and its
  listing yields at least one recognised frame (and no path on which the loop raises), the
  error is \<open>ConfigurationError\<close>, reported after the open and the scan of the listing.
\<close>

theorem both_options_rejected_after_open:
  "(\<forall>c. files w fn = Some c \<and> (\<forall>p\<in>set (listdir c). \<not> raises p) \<and> item_numbers (listdir c) \<noteq> []
        \<longrightarrow> fst (ZVI_init fn sh (Some f) d True w) = Inl ConfigurationError)
   \<and> (files w fn = None \<longrightarrow> fst (ZVI_init fn sh (Some f) d True w) = Inl ContainerOpenError)
   \<and> (\<forall>z. fst (ZVI_init fn sh (Some f) d True w) \<noteq> Inr z)
   \<and> io_log (snd (ZVI_init fn sh (Some f) d True w)) = io_log w @ [OpenFile fn]"
  by (auto simp add: ZVI_init_eq Let_def split: option.splits)

theorem both_options_rejected_after_open_witness:
  "ZVI_init ''seq.zvi'' (4, 1) (Some id) () True ex_world
     = (Inl ConfigurationError, ex_world\<lparr>io_log := [OpenFile ''seq.zvi'']\<rparr>)
   \<and> fst (ZVI_init ''none.zvi'' (4, 1) (Some id) () True ex_world) = Inl ContainerOpenError"
proof -
  note t = both_options_rejected_after_open [of ex_world "''seq.zvi''" "(4, 1)" id "()"]
  note u = both_options_rejected_after_open [of ex_world "''none.zvi''" "(4, 1)" id "()"]
  have c: "files ex_world ''seq.zvi'' = Some ex_ole" by (simp add: ex_world_def)
  have n: "files ex_world ''none.zvi'' = None" by (simp add: ex_world_def)
  have i: "item_numbers (listdir ex_ole) \<noteq> []" by (simp add: item_numbers_ex)
  from t c raises_ex i have 1: "fst (ZVI_init ''seq.zvi'' (4, 1) (Some id) () True ex_world)
      = Inl ConfigurationError"
    by blast
  from t have 2: "io_log (snd (ZVI_init ''seq.zvi'' (4, 1) (Some id) () True ex_world))
      = io_log ex_world @ [OpenFile ''seq.zvi'']"
    by (elim conjE)
  have 3: "files (snd (ZVI_init ''seq.zvi'' (4, 1) (Some id) () True ex_world)) = files ex_world"
    by (simp add: ZVI_init_eq Let_def split: option.splits)
  from u n have 4: "fst (ZVI_init ''none.zvi'' (4, 1) (Some id) () True ex_world)
      = Inl ContainerOpenError"
    by blast
  have "snd (ZVI_init ''seq.zvi'' (4, 1) (Some id) () True ex_world)
      = ex_world\<lparr>io_log := [OpenFile ''seq.zvi'']\<rparr>"
    using 2 3 by (simp add: ex_world_def)
  with 1 4 show ?thesis by (simp add: prod_eq_iff)
qed

text \<open>
  C4 as stated fails: starting from an empty log, the failure with \<open>ConfigurationError\<close>
  leaves the open of the file in the log; and for a file that cannot be opened the error
  is not \<open>ConfigurationError\<close> at all.
\<close>

theorem container_is_opened_before_options_are_checked:
  "io_log ex_world = []
   \<and> ZVI_init ''seq.zvi'' (4, 1) (Some id) () True ex_world
       = (Inl ConfigurationError, ex_world\<lparr>io_log := [OpenFile ''seq.zvi'']\<rparr>)
   \<and> fst (ZVI_init ''none.zvi'' (4, 1) (Some id) () True ex_world) = Inl ContainerOpenError"
  using raises_ex item_numbers_ex
  by (simp add: ZVI_init_eq Let_def) (simp add: ex_world_def)

section \<open>Which paths are frames\<close>

text \<open>
  C5 (amended). A path other than the empty path and the one-component path \<^verbatim>\<open>Image\<close> is
  recognised as a frame with item number \<open>n\<close> if and only if its first component is exactly
  \<^verbatim>\<open>Image\<close> and its second component begins with \<^verbatim>\<open>Item(<digits>)\<close> (the pattern is anchored
  at the start only: characters after the closing parenthesis are accepted), \<open>n\<close> being the
  digit run read as a decimal number; the round of the loop never raises on such a path,
  skips it when it is not recognised and appends its number when it is. Reading the
  decimal representation of a number gives the number back.
\<close>

theorem frame_paths_recognised_by_prefix:
  assumes "stream \<noteq> []" and "stream \<noteq> [''Image'']"
  shows "(recognised stream = Some n \<longleftrightarrow>
           (\<exists>b rest ds tail. stream = ''Image'' # b # rest \<and> b = ''Item('' @ ds @ '')'' @ tail
              \<and> ds \<noteq> [] \<and> (\<forall>c\<in>set ds. is_digit c) \<and> n = py_int ds))
       \<and> toc_step stream toc = Inr (case recognised stream of None \<Rightarrow> toc | Some k \<Rightarrow> toc @ [k])
       \<and> py_int (str_of_nat n) = n"
proof -
  have 1: "recognised stream = Some n \<longleftrightarrow>
           (\<exists>b rest ds tail. stream = ''Image'' # b # rest \<and> b = ''Item('' @ ds @ '')'' @ tail
              \<and> ds \<noteq> [] \<and> (\<forall>c\<in>set ds. is_digit c) \<and> n = py_int ds)"
    unfolding recognised_Some_iff re_match_Item_Some_iff by blast
  have "\<not> raises stream" using assms by (simp add: raises_iff)
  then have 2: "toc_step stream toc
      = Inr (case recognised stream of None \<Rightarrow> toc | Some k \<Rightarrow> toc @ [k])"
    by (simp add: toc_step_append [of stream toc] split: option.splits)
  show ?thesis using 1 2 py_int_str_of_nat by blast
qed

theorem frame_paths_recognised_by_prefix_witness:
  "recognised [''Image'', ''Item(12)'', ''Contents''] = Some 12
   \<and> toc_step [''Image'', ''Item(12)'', ''Contents''] [7] = Inr [7, 12]
   \<and> toc_step [''Tags''] [7] = Inr [7]"
proof -
  let ?p = "[''Image'', ''Item(12)'', ''Contents'']"
  note t = frame_paths_recognised_by_prefix [of ?p 12 "[7]"]
  have d: "\<forall>c\<in>set ''12''. is_digit c" by (simp add: is_digit_def)
  have v: "12 = py_int ''12''" by (simp add: py_int_def digit_val_def)
  have "\<exists>b rest ds tail. ?p = ''Image'' # b # rest \<and> b = ''Item('' @ ds @ '')'' @ tail
              \<and> ds \<noteq> [] \<and> (\<forall>c\<in>set ds. is_digit c) \<and> 12 = py_int ds"
    using d v by (intro exI [of _ "''Item(12)''"] exI [of _ "[''Contents'']"]
        exI [of _ "''12''"] exI [of _ "[]"]) simp
  with t have r: "recognised ?p = Some 12" by simp
  from t have "toc_step ?p [7] = Inr (case recognised ?p of None \<Rightarrow> [7] | Some k \<Rightarrow> [7] @ [k])"
    by simp
  with r have s: "toc_step ?p [7] = Inr [7, 12]" by simp
  have n: "recognised [''Tags''] = None"
    by (simp add: recognised_def toc_step_def subscript_def)
  from frame_paths_recognised_by_prefix [of "[''Tags'']" 0 "[7]"] n
  have "toc_step [''Tags''] [7] = Inr [7]" by simp
  with r s show ?thesis by (intro conjI)
qed

text \<open>
  C5 as stated fails: the second component \<^verbatim>\<open>Item(3)x\<close> does not match the pattern in its
  entirety, and yet the path is recognised with item number 3.
\<close>

theorem trailing_characters_are_accepted:
  "recognised [''Image'', ''Item(3)x'', ''Contents''] = Some 3
   \<and> toc_loop [[''Image'', ''Item(3)x'', ''Contents'']] [] = Inr [3]
   \<and> \<not> frame_path [''Image'', ''Item(3)x'', ''Contents'']"
  by (simp add: recognised_def toc_step_def subscript_def re_match_Item_def is_digit_def
      py_int_def digit_val_def frame_path_def Item_pattern_def)

section \<open>The offset correction\<close>

text \<open>
  C6. The roll by \<open>-162\<close> that the decoder applies is a circular rotation of the flattened
  samples: it keeps the shape, the element at index \<open>i\<close> of the result is the element at
  index \<open>(i + 162) mod n\<close> of the decoded array, and rolling forward by 162 afterwards
  gives the array back.
\<close>

theorem offset_correction_is_circular:
  "np_roll (np_roll a (- 162)) 162 = a
   \<and> arr_shape (np_roll a (- 162)) = arr_shape a
   \<and> arr_flat (np_roll a (- 162)) = rotate 162 (arr_flat a)
   \<and> (\<forall>i<length (arr_flat a).
         arr_flat (np_roll a (- 162)) ! i = arr_flat a ! ((i + 162) mod length (arr_flat a)))
   \<and> (\<forall>data img. ole_read (zvi_ole z) (stream_label j) = Some data
          \<and> Image_fromstring (zvi_im_sz z) data = Inr img
        \<longrightarrow> fst (decode_frame z j w) = Inr (np_roll (np_asarray img (zvi_dtype z)) (- 162)))"
proof -
  have 1: "np_roll (np_roll a (- 162)) 162 = a"
    using roll_flat_inverse [of "arr_flat a" 162] by (simp add: np_roll_def)
  have 2: "arr_flat (np_roll a (- 162)) = rotate 162 (arr_flat a)"
    using roll_flat_neg [of "arr_flat a" 162] by (simp add: np_roll_def)
  have 3: "arr_flat (np_roll a (- 162)) ! i = arr_flat a ! ((i + 162) mod length (arr_flat a))"
    if "i < length (arr_flat a)" for i
    using roll_flat_nth [OF that, of 162] by (simp add: np_roll_def)
  have 4: "fst (decode_frame z j w) = Inr (np_roll (np_asarray img (zvi_dtype z)) (- 162))"
    if "ole_read (zvi_ole z) (stream_label j) = Some data"
      "Image_fromstring (zvi_im_sz z) data = Inr img" for data img
    using that by (simp add: decode_frame_def openstream_read_def Let_def)
  show ?thesis
    using 1 2 3 4 by (simp add: np_roll_def)
qed

theorem offset_correction_is_circular_witness:
  "arr_flat (np_roll \<lparr>arr_shape = (1, 5), arr_dtype = UInt16, arr_flat = [10, 11, 12, 13, 14]\<rparr> (- 162))
      = [12, 13, 14, 10, 11]
   \<and> arr_flat (np_roll \<lparr>arr_shape = (1, 5), arr_dtype = UInt16, arr_flat = [10, 11, 12, 13, 14]\<rparr> (- 162)) ! 4 = 11
   \<and> fst (decode_frame ex_zvi 0 ex_world)
      = Inr (np_roll \<lparr>arr_shape = (1, 4), arr_dtype = UInt16, arr_flat = [1, 2, 3, 4]\<rparr> (- 162))"
proof -
  let ?a = "\<lparr>arr_shape = (1, 5), arr_dtype = UInt16, arr_flat = [10, 11, 12, 13, 14]\<rparr>"
  let ?data = "[1, 0, 2, 0, 3, 0, 4, 0] :: byte list"
  let ?img = "\<lparr>img_size = (4, 1), img_data = [1, 2, 3, 4]\<rparr>"
  have m: "ole_read (zvi_ole ex_zvi) (stream_label 0) = Some ?data"
    by (simp add: stream_label_0 ex_zvi_def ex_ole_def ole_of_def)
  have f: "Image_fromstring (zvi_im_sz ex_zvi) ?data = Inr ?img"
    by (simp add: Image_fromstring_def ex_zvi_def)
  have i: "(4::nat) < length (arr_flat ?a)" by simp
  note t = offset_correction_is_circular [of ?a ex_zvi 0 ex_world]
  from t have n: "\<forall>i<length (arr_flat ?a).
      arr_flat (np_roll ?a (- 162)) ! i = arr_flat ?a ! ((i + 162) mod length (arr_flat ?a))"
    by (elim conjE)
  from t have d: "\<forall>data img. ole_read (zvi_ole ex_zvi) (stream_label 0) = Some data
          \<and> Image_fromstring (zvi_im_sz ex_zvi) data = Inr img
        \<longrightarrow> fst (decode_frame ex_zvi 0 ex_world)
            = Inr (np_roll (np_asarray img (zvi_dtype ex_zvi)) (- 162))"
    by (elim conjE)
  from n i have "arr_flat (np_roll ?a (- 162)) ! 4 = arr_flat ?a ! ((4 + 162) mod length (arr_flat ?a))"
    by blast
  then have 1: "arr_flat (np_roll ?a (- 162)) ! 4 = 11" by simp
  from d m f have "fst (decode_frame ex_zvi 0 ex_world)
      = Inr (np_roll (np_asarray ?img (zvi_dtype ex_zvi)) (- 162))"
    by blast
  then have 2: "fst (decode_frame ex_zvi 0 ex_world)
      = Inr (np_roll \<lparr>arr_shape = (1, 4), arr_dtype = UInt16, arr_flat = [1, 2, 3, 4]\<rparr> (- 162))"
    by (simp add: np_asarray_def ex_zvi_def)
  have 3: "arr_flat (np_roll ?a (- 162)) = [12, 13, 14, 10, 11]"
    by (simp add: np_roll_def roll_flat_def)
  from 1 2 3 show ?thesis by (intro conjI)
qed

section \<open>A container without frames\<close>

text \<open>
  When no path is recognised and the loop does not raise, the maximum of the empty table
  of contents raises.
\<close>

lemma no_frames_no_sequence:
  assumes "files w fn = Some c" and "\<forall>p\<in>set (listdir c). \<not> raises p"
    and "item_numbers (listdir c) = []"
  shows "fst (ZVI_init fn sh pf d ag w) = Inl EmptyIndexError"
  using assms by (simp add: ZVI_init_eq)

text \<open>
  C7. A container in which no path is recognised as a frame should fail with
  \<open>EmptyIndexError\<close>. For the container whose only stream is a stream \<^verbatim>\<open>Image\<close> at the
  root, no path is recognised, and the constructor fails with \<open>IndexError\<close> instead: the
  subscript \<^verbatim>\<open>stream[1]\<close> is out of range.
\<close>

theorem image_stream_at_root_raises_index_error:
  "listdir image_only_ole = [[''Image'']]
   \<and> item_numbers (listdir image_only_ole) = []
   \<and> fst (ZVI_init ''image.zvi'' (4, 1) None () False ex_world) = Inl IndexError"
  by (simp add: ZVI_init_eq Let_def ex_world_def raises_iff listdir_def image_only_ole_def ole_of_def
      item_numbers_def recognised_def toc_step_def subscript_def)

section \<open>Negative indices, determinism and the element type\<close>

text \<open>
  C8. The retrieval at index \<open>-1\<close> is the retrieval at index \<open>len - 1\<close>: the same result
  and the same reads.
\<close>

theorem negative_one_is_last:
  "get z (- 1) w = get z (int (len z) - 1) w"
  by (simp add: get_def Let_def)


text \<open>
  C10. The constructor's result does not depend on the \<open>dtype\<close> argument, whatever its
  value and type; the pixel type of a constructed sequence is \<open>UInt16\<close>, and so is the
  element type of every array its decoder returns.
\<close>

theorem dtype_argument_is_ignored:
  "ZVI_init fn sh pf d ag w = ZVI_init fn sh pf d' ag w
   \<and> (fst (ZVI_init fn sh pf d ag w) = Inr z \<longrightarrow>
        pixel_type z = UInt16
        \<and> (\<forall>j w' arr. fst (decode_frame z j w') = Inr arr \<longrightarrow> arr_dtype arr = UInt16))"
proof -
  have 1: "ZVI_init fn sh pf d ag w = ZVI_init fn sh pf d' ag w"
    by (simp add: ZVI_init_def)
  have 2: "arr_dtype arr = UInt16"
    if "fst (ZVI_init fn sh pf d ag w) = Inr z" "fst (decode_frame z j w') = Inr arr" for j w' arr
    using init_success(2) [OF that(1)] that(2)
    by (auto simp add: decode_frame_eq Let_def split: option.splits prod.splits if_splits)
  show ?thesis
    using 1 2 init_success(2) [of fn sh pf d ag w z] by (auto simp add: pixel_type_def)
qed

theorem dtype_argument_is_ignored_witness:
  "ZVI_init ''seq.zvi'' (4, 1) None UInt8 False ex_world
     = ZVI_init ''seq.zvi'' (4, 1) None ''float32'' False ex_world
   \<and> pixel_type ex_zvi = UInt16
   \<and> arr_dtype \<lparr>arr_shape = (1, 4), arr_dtype = UInt16, arr_flat = [259, 260, 257, 258]\<rparr> = UInt16"
proof -
  let ?arr = "\<lparr>arr_shape = (1, 4), arr_dtype = UInt16, arr_flat = [259, 260, 257, 258]\<rparr>"
  have i: "fst (ZVI_init ''seq.zvi'' (4, 1) None UInt8 False ex_world) = Inr ex_zvi"
    using init_ex [of UInt8] by simp
  note t = dtype_argument_is_ignored [of "''seq.zvi''" "(4, 1)" None UInt8 False ex_world
      "''float32''" ex_zvi]
  from t have e: "ZVI_init ''seq.zvi'' (4, 1) None UInt8 False ex_world
     = ZVI_init ''seq.zvi'' (4, 1) None ''float32'' False ex_world"
    by (elim conjE)
  from t i have p: "pixel_type ex_zvi = UInt16"
    and a: "\<forall>j w' arr. fst (decode_frame ex_zvi j w') = Inr arr \<longrightarrow> arr_dtype arr = UInt16"
    by blast+
  from a decode_ex_3 [of ex_world] have "arr_dtype ?arr = UInt16" by blast
  with e p show ?thesis by (intro conjI)
qed

end
